theory Spec2Isabelle
  imports Complex_Main
begin

section \<open>Numbers of the displacement-map generator\<close>

text \<open>
  The component \<open>LiquidGlass.tsx\<close> computes with JavaScript numbers. The props
  \<open>elasticity\<close> and \<open>displacementScale\<close> and the measured \<open>width\<close> and
  \<open>height\<close> are modelled as finite reals, and arithmetic on them is exact: rounding
  is not modelled, and a prop that is \<open>NaN\<close>, infinite or the negative zero is outside
  the model. Where an offset is exactly zero here, the program's double may be a rounding
  residue of either sign, which matters only when it is divided by a zero \<open>maxScale\<close>.
  The theorems about a zero \<open>maxScale\<close> therefore say of a texel in general only that
  its value is not finite and its byte is 0 or 255, and name the value only for an
  offset that is far from zero. On such inputs the first pass of \<open>updateShader\<close> divides only by the
  constants \<open>-0.8\<close> and \<open>1\<close> and by \<open>w, h \<ge> 1\<close>, and takes the square root of a sum
  of squares, so every value of the first pass is a finite real.

  The second pass divides by \<open>maxScale\<close>, which can be zero. A JavaScript division by
  zero does not fail: it yields \<open>Infinity\<close>, \<open>-Infinity\<close> or \<open>NaN\<close>. The values of the
  second pass are therefore of type \<open>jsnum\<close>. (A zero \<open>maxScale\<close> under a non-zero
  numerator arises only as the product of a positive maximum and \<open>0.5 * 0\<close>, which is
  the positive zero, so the sign of an infinite quotient is the sign of the numerator.)
\<close>

datatype jsnum = Fin real | PInf | NInf | NaN


text \<open>\<open>a / b\<close> on JavaScript numbers.\<close>

fun jdiv :: "jsnum \<Rightarrow> jsnum \<Rightarrow> jsnum" where
  "jdiv NaN b = NaN"
| "jdiv a NaN = NaN"
| "jdiv (Fin a) (Fin b) =
     (if b = 0 then (if a = 0 then NaN else if 0 < a then PInf else NInf)
      else Fin (a / b))"
| "jdiv (Fin a) PInf = Fin 0"
| "jdiv (Fin a) NInf = Fin 0"
| "jdiv PInf (Fin b) = (if 0 \<le> b then PInf else NInf)"
| "jdiv NInf (Fin b) = (if 0 \<le> b then NInf else PInf)"
| "jdiv PInf PInf = NaN"
| "jdiv PInf NInf = NaN"
| "jdiv NInf PInf = NaN"
| "jdiv NInf NInf = NaN"

text \<open>\<open>a + b\<close> on JavaScript numbers.\<close>

fun jadd :: "jsnum \<Rightarrow> jsnum \<Rightarrow> jsnum" where
  "jadd NaN b = NaN"
| "jadd a NaN = NaN"
| "jadd (Fin a) (Fin b) = Fin (a + b)"
| "jadd (Fin a) PInf = PInf"
| "jadd (Fin a) NInf = NInf"
| "jadd PInf (Fin b) = PInf"
| "jadd NInf (Fin b) = NInf"
| "jadd PInf PInf = PInf"
| "jadd NInf NInf = NInf"
| "jadd PInf NInf = NaN"
| "jadd NInf PInf = NaN"

text \<open>\<open>a * b\<close> on JavaScript numbers.\<close>

fun jmul :: "jsnum \<Rightarrow> jsnum \<Rightarrow> jsnum" where
  "jmul NaN b = NaN"
| "jmul a NaN = NaN"
| "jmul (Fin a) (Fin b) = Fin (a * b)"
| "jmul (Fin a) PInf = (if a = 0 then NaN else if 0 < a then PInf else NInf)"
| "jmul (Fin a) NInf = (if a = 0 then NaN else if 0 < a then NInf else PInf)"
| "jmul PInf (Fin b) = (if b = 0 then NaN else if 0 < b then PInf else NInf)"
| "jmul NInf (Fin b) = (if b = 0 then NaN else if 0 < b then NInf else PInf)"
| "jmul PInf PInf = PInf"
| "jmul NInf NInf = PInf"
| "jmul PInf NInf = NInf"
| "jmul NInf PInf = NInf"

text \<open>
  A store into a \<open>Uint8ClampedArray\<close> converts the number with the language's
  \<open>ToUint8Clamp\<close>: \<open>NaN\<close> becomes 0, the value is clamped to \<open>[0, 255]\<close>, and a value
  in between is rounded to the nearest integer, a tie going to the even one.
\<close>

definition round_half_even :: "real \<Rightarrow> int" where
  "round_half_even v =
     (let f = \<lfloor>v\<rfloor> in
      if of_int f + 1 / 2 < v then f + 1
      else if v < of_int f + 1 / 2 then f
      else if even f then f else f + 1)"

fun ToUint8Clamp :: "jsnum \<Rightarrow> nat" where
  "ToUint8Clamp NaN = 0"
| "ToUint8Clamp PInf = 255"
| "ToUint8Clamp NInf = 0"
| "ToUint8Clamp (Fin v) =
     (if v \<le> 0 then 0 else if 255 \<le> v then 255 else nat (round_half_even v))"

text \<open>
  \<open>rawValues[index]\<close>: reading a JavaScript array beyond its end gives \<open>undefined\<close>,
  which arithmetic converts to \<open>NaN\<close>.
\<close>

definition raw_at :: "real list \<Rightarrow> nat \<Rightarrow> jsnum" where
  "raw_at rawValues index =
     (if index < length rawValues then Fin (rawValues ! index) else NaN)"

section \<open>The utility functions\<close>

text \<open>
  \<open>smoothStep\<close> (lines 46-49). Both calls in \<open>updateShader\<close> have \<open>b - a \<noteq> 0\<close>
  (\<open>-0.8\<close> and \<open>1\<close>), so the division is a division of reals.
\<close>

definition smoothStep :: "real \<Rightarrow> real \<Rightarrow> real \<Rightarrow> real" where
  "smoothStep a b t =
     (let t' = max 0 (min 1 ((t - a) / (b - a))) in t' * t' * (3 - 2 * t'))"

text \<open>\<open>length\<close> (lines 51-53).\<close>

definition length_xy :: "real \<Rightarrow> real \<Rightarrow> real" where
  "length_xy x y = sqrt (x * x + y * y)"

text \<open>\<open>roundedRectSDF\<close> (lines 55-66).\<close>

definition roundedRectSDF :: "real \<Rightarrow> real \<Rightarrow> real \<Rightarrow> real \<Rightarrow> real \<Rightarrow> real" where
  "roundedRectSDF x y w h radius =
     (let qx = \<bar>x\<bar> - w + radius;
          qy = \<bar>y\<bar> - h + radius
      in min (max qx qy) 0 + length_xy (max qx 0) (max qy 0) - radius)"

section \<open>The two passes of updateShader\<close>

text \<open>
  The body of the first loop (lines 96-113) at the byte offset \<open>i\<close>, which is a multiple
  of 4 throughout the loop, so that \<open>i / 4\<close> is the integer \<open>i div 4\<close>.
\<close>

definition pixel_x :: "nat \<Rightarrow> nat \<Rightarrow> nat" where
  "pixel_x w i = (i div 4) mod w"

definition pixel_y :: "nat \<Rightarrow> nat \<Rightarrow> nat" where
  "pixel_y w i = (i div 4) div w"

text \<open>The weight \<open>scaled\<close> of the fragment at the recentred coordinates (lines 103-105).\<close>

definition fragment_scaled :: "real \<Rightarrow> real \<Rightarrow> real \<Rightarrow> real" where
  "fragment_scaled elasticity ix iy =
     (let distanceToEdge = roundedRectSDF ix iy (3 / 10) (2 / 10) elasticity;
          displacement = smoothStep (8 / 10) 0 (distanceToEdge - 15 / 100)
      in smoothStep 0 1 displacement)"

record fragment =
  frag_scaled :: real
  pos_x :: real
  pos_y :: real
  frag_dx :: real
  frag_dy :: real

definition shade :: "nat \<Rightarrow> nat \<Rightarrow> real \<Rightarrow> nat \<Rightarrow> nat \<Rightarrow> fragment" where
  "shade w h elasticity x y =
     (let uvx = real x / real w;
          uvy = real y / real h;
          ix = uvx - 1 / 2;
          iy = uvy - 1 / 2;
          scaled = fragment_scaled elasticity ix iy;
          px = ix * scaled + 1 / 2;
          py = iy * scaled + 1 / 2
      in \<lparr> frag_scaled = scaled, pos_x = px, pos_y = py,
           frag_dx = px * real w - real x, frag_dy = py * real h - real y \<rparr>)"

text \<open>
  The first loop (lines 95-116): \<open>len\<close> is \<open>data.length\<close>, the state is the running
  \<open>maxScale\<close> and the array \<open>rawValues\<close>.
\<close>

function pass1 :: "nat \<Rightarrow> nat \<Rightarrow> real \<Rightarrow> nat \<Rightarrow> nat \<Rightarrow> real \<times> real list \<Rightarrow> real \<times> real list" where
  "pass1 w h elasticity len i (maxScale, rawValues) =
     (if i < len then
        let f = shade w h elasticity (pixel_x w i) (pixel_y w i);
            dx = frag_dx f;
            dy = frag_dy f
        in pass1 w h elasticity len (i + 4)
             (max maxScale (max \<bar>dx\<bar> \<bar>dy\<bar>), rawValues @ [dx, dy])
      else (maxScale, rawValues))"
  by pat_completeness auto
termination
  by (relation "measure (\<lambda>(w, h, e, len, i, s). len - i)") auto

declare pass1.simps [simp del]

text \<open>
  The second loop (lines 120-128). A store beyond the end of a typed array is ignored,
  as \<open>data[i := v]\<close> is beyond the end of a list.
\<close>

function pass2 :: "real list \<Rightarrow> real \<Rightarrow> nat \<Rightarrow> nat \<Rightarrow> nat list \<Rightarrow> nat list" where
  "pass2 rawValues maxScale i index data =
     (if i < length data then
        let r = jadd (jdiv (raw_at rawValues index) (Fin maxScale)) (Fin (1 / 2));
            g = jadd (jdiv (raw_at rawValues (index + 1)) (Fin maxScale)) (Fin (1 / 2))
        in pass2 rawValues maxScale (i + 4) (index + 2)
             (data[i := ToUint8Clamp (jmul r (Fin 255)),
                   i + 1 := ToUint8Clamp (jmul g (Fin 255)),
                   i + 2 := 0,
                   i + 3 := 255])
      else data)"
  by pat_completeness auto
termination
  by (relation "measure (\<lambda>(rv, m, i, index, data). length data - i)") auto

declare pass2.simps [simp del]

text \<open>
  Lines 90-128: the buffer and the scale computed for the integer size \<open>w \<times> h\<close>.
  \<open>new Uint8ClampedArray(n)\<close> is \<open>n\<close> zero bytes.
\<close>

definition generate :: "nat \<Rightarrow> nat \<Rightarrow> real \<Rightarrow> real \<Rightarrow> nat list \<times> real" where
  "generate w h elasticity displacementScale =
     (let data = replicate (w * h * 4) 0;
          (maxRaw, rawValues) = pass1 w h elasticity (length data) 0 (0, []);
          maxScale = maxRaw * (1 / 2 * displacementScale)
      in (pass2 rawValues maxScale 0 0 data, maxScale))"

section \<open>updateShader as a state transformer\<close>

text \<open>
  What \<open>updateShader\<close> (lines 68-173) reads and writes: the measured size and the two
  props, the three element references (\<open>None\<close> is a \<open>null\<close> ref), whether
  \<open>getContext("2d")\<close> gives a context, the canvas with its bitmap, the \<open>href\<close> of the
  \<open>feImage\<close> (the data URL of a canvas is modelled as the canvas it encodes) and the
  \<open>scale\<close> attribute of the \<open>feDisplacementMap\<close> (the number that \<open>toString\<close> prints).
\<close>

record canvas =
  canvas_width :: nat
  canvas_height :: nat
  bitmap :: "nat list"

record glass =
  width :: real
  height :: real
  elasticity :: real
  displacementScale :: real
  canvasRef :: "canvas option"
  context2d :: bool
  feImageRef :: "canvas option option"
  feDisplacementMapRef :: "real option option"

datatype outcome = Skipped | LengthMismatch | ImageDataError | Updated

definition canvasDPI :: real where
  "canvasDPI = 1"

text \<open>
  \<open>new ImageData(data, w, h)\<close> throws unless \<open>data\<close> is a non-empty whole number of
  \<open>w \<times> h\<close> texels.
\<close>

definition ImageData :: "nat list \<Rightarrow> nat \<Rightarrow> nat \<Rightarrow> canvas option" where
  "ImageData data w h =
     (if data \<noteq> [] \<and> length data = 4 * w * h
      then Some \<lparr> canvas_width = w, canvas_height = h, bitmap = data \<rparr> else None)"

text \<open>Assigning \<open>canvas.width\<close> and \<open>canvas.height\<close> clears the bitmap.\<close>

definition resize_canvas :: "canvas \<Rightarrow> nat \<Rightarrow> nat \<Rightarrow> canvas" where
  "resize_canvas c w h =
     (if canvas_width c \<noteq> w \<or> canvas_height c \<noteq> h
      then \<lparr> canvas_width = w, canvas_height = h, bitmap = replicate (w * h * 4) 0 \<rparr>
      else c)"

definition updateShader :: "glass \<Rightarrow> outcome \<times> glass" where
  "updateShader s =
     (case (canvasRef s, feImageRef s, feDisplacementMapRef s) of
        (Some cv, Some href, Some scale) \<Rightarrow>
          if \<not> context2d s then (Skipped, s)
          else
            let w = max 1 \<lfloor>width s * canvasDPI\<rfloor>;
                h = max 1 \<lfloor>height s * canvasDPI\<rfloor>
            in if w \<le> 0 \<or> h \<le> 0 then (Skipped, s)
               else
                 let cv1 = resize_canvas cv (nat w) (nat h);
                     s1 = s\<lparr> canvasRef := Some cv1 \<rparr>;
                     (data, maxScale) =
                        generate (nat w) (nat h) (elasticity s) (displacementScale s)
                 in if length data \<noteq> nat w * nat h * 4 then (LengthMismatch, s1)
                    else
                      (case ImageData data (nat w) (nat h) of
                         None \<Rightarrow> (ImageDataError, s1)
                       | Some img \<Rightarrow>
                           (Updated,
                            s1\<lparr> canvasRef := Some (cv1\<lparr> bitmap := bitmap img \<rparr>),
                                feImageRef := Some (Some (cv1\<lparr> bitmap := bitmap img \<rparr>)),
                                feDisplacementMapRef := Some (Some (maxScale / canvasDPI)) \<rparr>))
      | _ \<Rightarrow> (Skipped, s))"

section \<open>The generator pixel by pixel\<close>

text \<open>
  The loops above, unrolled: the raw offsets of the \<open>k\<close>-th texel (row-major, so
  \<open>k = y * w + x\<close>), the array \<open>rawValues\<close> and the running maximum after the texels
  \<open>k..<n\<close>, and the value and the byte that the second loop derives from a raw offset.
\<close>

definition raw_dx :: "nat \<Rightarrow> nat \<Rightarrow> real \<Rightarrow> nat \<Rightarrow> real" where
  "raw_dx w h e k = frag_dx (shade w h e (k mod w) (k div w))"

definition raw_dy :: "nat \<Rightarrow> nat \<Rightarrow> real \<Rightarrow> nat \<Rightarrow> real" where
  "raw_dy w h e k = frag_dy (shade w h e (k mod w) (k div w))"

definition raw_list :: "nat \<Rightarrow> nat \<Rightarrow> real \<Rightarrow> nat \<Rightarrow> nat \<Rightarrow> real list" where
  "raw_list w h e k n = concat (map (\<lambda>j. [raw_dx w h e j, raw_dy w h e j]) [k..<n])"

definition raw_max :: "nat \<Rightarrow> nat \<Rightarrow> real \<Rightarrow> nat \<Rightarrow> nat \<Rightarrow> real \<Rightarrow> real" where
  "raw_max w h e k n m = fold (\<lambda>j m. max m (max \<bar>raw_dx w h e j\<bar> \<bar>raw_dy w h e j\<bar>)) [k..<n] m"

text \<open>The number \<open>r\<close> (or \<open>g\<close>) of lines 122-123.\<close>

definition channel :: "real \<Rightarrow> jsnum \<Rightarrow> jsnum" where
  "channel m v = jadd (jdiv v (Fin m)) (Fin (1 / 2))"

text \<open>The byte stored by lines 124-125.\<close>

definition encode :: "real \<Rightarrow> jsnum \<Rightarrow> nat" where
  "encode m v = ToUint8Clamp (jmul (channel m v) (Fin 255))"

text \<open>
  The element references and the drawing context that \<open>updateShader\<close> needs are all
  there (lines 73 and 76 do not return).
\<close>

definition mounted :: "glass \<Rightarrow> bool" where
  "mounted s \<longleftrightarrow>
     canvasRef s \<noteq> None \<and> feImageRef s \<noteq> None \<and> feDisplacementMapRef s \<noteq> None \<and> context2d s"

text \<open>The integer size of lines 78-79.\<close>

definition canvas_w :: "glass \<Rightarrow> nat" where
  "canvas_w s = nat (max 1 \<lfloor>width s * canvasDPI\<rfloor>)"

definition canvas_h :: "glass \<Rightarrow> nat" where
  "canvas_h s = nat (max 1 \<lfloor>height s * canvasDPI\<rfloor>)"

section \<open>The rounded rectangle of the specification\<close>

text \<open>
  The shape that the specification names, written from its words and not from the code:
  the rectangle with half-extents \<open>(a, b)\<close> about the origin whose four corners are
  replaced by quarter discs of radius \<open>r\<close>. A corner can be rounded by at most the smaller
  half-extent, so a larger radius is cut to it (the shape keeps its half-extents).
  Inside a corner square the point \<open>(cx, cy)\<close> is measured from the centre of the
  quarter disc. The closed shape, its interior, its boundary and its exterior:
\<close>

definition spec_corner_radius :: "real \<Rightarrow> real \<Rightarrow> real \<Rightarrow> real" where
  "spec_corner_radius a b r = min r (min a b)"

definition spec_rr_closed :: "real \<Rightarrow> real \<Rightarrow> real \<Rightarrow> real \<Rightarrow> real \<Rightarrow> bool" where
  "spec_rr_closed a b r x y =
     (let r' = spec_corner_radius a b r;
          cx = \<bar>x\<bar> - (a - r');
          cy = \<bar>y\<bar> - (b - r')
      in \<bar>x\<bar> \<le> a \<and> \<bar>y\<bar> \<le> b \<and> (if 0 < cx \<and> 0 < cy then cx * cx + cy * cy \<le> r' * r' else True))"

definition spec_rr_inside :: "real \<Rightarrow> real \<Rightarrow> real \<Rightarrow> real \<Rightarrow> real \<Rightarrow> bool" where
  "spec_rr_inside a b r x y =
     (let r' = spec_corner_radius a b r;
          cx = \<bar>x\<bar> - (a - r');
          cy = \<bar>y\<bar> - (b - r')
      in \<bar>x\<bar> < a \<and> \<bar>y\<bar> < b \<and> (if 0 < cx \<and> 0 < cy then cx * cx + cy * cy < r' * r' else True))"

definition spec_rr_boundary :: "real \<Rightarrow> real \<Rightarrow> real \<Rightarrow> real \<Rightarrow> real \<Rightarrow> bool" where
  "spec_rr_boundary a b r x y = (spec_rr_closed a b r x y \<and> \<not> spec_rr_inside a b r x y)"

definition spec_rr_outside :: "real \<Rightarrow> real \<Rightarrow> real \<Rightarrow> real \<Rightarrow> real \<Rightarrow> bool" where
  "spec_rr_outside a b r x y = (\<not> spec_rr_closed a b r x y)"

section \<open>The loops in closed form\<close>

lemma pass1_closed:
  "k \<le> n \<Longrightarrow> pass1 w h e (4 * n) (4 * k) (m, rv) = (raw_max w h e k n m, rv @ raw_list w h e k n)"
proof (induction "n - k" arbitrary: k m rv)
  case 0
  then show ?case by (simp add: pass1.simps raw_max_def raw_list_def)
next
  case (Suc d)
  then have kn: "k < n" and d: "d = n - Suc k" and le: "Suc k \<le> n" by auto
  have step: "4 * k + 4 = 4 * Suc k" by simp
  have upt: "[k..<n] = k # [Suc k..<n]" using kn by (simp add: upt_conv_Cons)
  show ?case
    using kn Suc.hyps(1)[OF d le]
    by (subst pass1.simps)
       (simp add: Let_def step upt raw_max_def raw_list_def raw_dx_def raw_dy_def pixel_x_def pixel_y_def del: mult_Suc_right)
qed

lemma pass2_length: "length (pass2 rv m i index data) = length data"
  by (induction rv m i index data rule: pass2.induct) (subst pass2.simps, simp add: Let_def)

lemma pass2_below: "j < i \<Longrightarrow> pass2 rv m i index data ! j = data ! j"
  by (induction rv m i index data rule: pass2.induct) (subst pass2.simps, simp add: Let_def)

lemma pass2_at:
  assumes "i + 3 < length data"
  shows "pass2 rv m i index data ! i = encode m (raw_at rv index)"
    and "pass2 rv m i index data ! (i + 1) = encode m (raw_at rv (index + 1))"
    and "pass2 rv m i index data ! (i + 2) = 0"
    and "pass2 rv m i index data ! (i + 3) = 255"
  using assms
  by (subst pass2.simps, simp add: Let_def pass2_below encode_def channel_def)+

lemma pass2_pixel:
  assumes "length data = 4 * n" "k0 + k < n"
  shows "pass2 rv m (4 * k0) (2 * k0) data ! (4 * (k0 + k)) = encode m (raw_at rv (2 * (k0 + k)))
       \<and> pass2 rv m (4 * k0) (2 * k0) data ! (4 * (k0 + k) + 1) = encode m (raw_at rv (2 * (k0 + k) + 1))
       \<and> pass2 rv m (4 * k0) (2 * k0) data ! (4 * (k0 + k) + 2) = 0
       \<and> pass2 rv m (4 * k0) (2 * k0) data ! (4 * (k0 + k) + 3) = 255"
  using assms
proof (induction k arbitrary: k0 data)
  case 0
  then have "4 * k0 + 3 < length data" by simp
  from pass2_at[OF this] show ?case by simp
next
  case (Suc k)
  let ?d = "data[4 * k0 := encode m (raw_at rv (2 * k0)),
                 4 * k0 + 1 := encode m (raw_at rv (2 * k0 + 1)),
                 4 * k0 + 2 := 0, 4 * k0 + 3 := 255]"
  have lt: "4 * k0 < length data" using Suc.prems by simp
  have unfold: "pass2 rv m (4 * k0) (2 * k0) data = pass2 rv m (4 * Suc k0) (2 * Suc k0) ?d"
    using lt by (subst pass2.simps) (simp add: Let_def encode_def channel_def add.commute)
  have len: "length ?d = 4 * n" using Suc.prems by simp
  have "Suc k0 + k < n" using Suc.prems by simp
  from Suc.IH[OF len this] show ?case
    unfolding unfold by simp
qed

lemma raw_list_length: "length (raw_list w h e k n) = 2 * (n - k)"
  by (induction n) (auto simp: raw_list_def)

lemma raw_list_nth:
  "j < n \<Longrightarrow> raw_list w h e 0 n ! (2 * j) = raw_dx w h e j
          \<and> raw_list w h e 0 n ! (2 * j + 1) = raw_dy w h e j"
proof (induction n)
  case 0
  then show ?case by simp
next
  case (Suc n)
  have app: "raw_list w h e 0 (Suc n) = raw_list w h e 0 n @ [raw_dx w h e n, raw_dy w h e n]"
    by (simp add: raw_list_def)
  have len: "length (raw_list w h e 0 n) = 2 * n"
    by (simp add: raw_list_length)
  show ?case
  proof (cases "j < n")
    case True
    with Suc.IH show ?thesis by (simp add: app nth_append len)
  next
    case False
    with Suc.prems have "j = n" by simp
    then show ?thesis by (simp add: app nth_append len)
  qed
qed

lemma generate_eq:
  "generate w h e ds =
     (pass2 (raw_list w h e 0 (w * h)) (raw_max w h e 0 (w * h) 0 * (1 / 2 * ds)) 0 0
        (replicate (w * h * 4) 0),
      raw_max w h e 0 (w * h) 0 * (1 / 2 * ds))"
proof -
  have "pass1 w h e (4 * (w * h)) (4 * 0) (0, []) =
          (raw_max w h e 0 (w * h) 0, [] @ raw_list w h e 0 (w * h))"
    by (rule pass1_closed) simp
  then show ?thesis
    by (simp add: generate_def mult.commute Let_def)
qed

lemma generate_length: "length (fst (generate w h e ds)) = w * h * 4"
  by (simp add: generate_eq pass2_length)

lemma generate_maxScale: "snd (generate w h e ds) = raw_max w h e 0 (w * h) 0 * (1 / 2 * ds)"
  by (simp add: generate_eq)

lemma generate_texel:
  assumes "k < w * h"
  shows "fst (generate w h e ds) ! (4 * k) = encode (snd (generate w h e ds)) (Fin (raw_dx w h e k))"
    and "fst (generate w h e ds) ! (4 * k + 1) = encode (snd (generate w h e ds)) (Fin (raw_dy w h e k))"
    and "fst (generate w h e ds) ! (4 * k + 2) = 0"
    and "fst (generate w h e ds) ! (4 * k + 3) = 255"
proof -
  let ?rv = "raw_list w h e 0 (w * h)"
  let ?m = "raw_max w h e 0 (w * h) 0 * (1 / 2 * ds)"
  have len: "length (replicate (w * h * 4) (0::nat)) = 4 * (w * h)" by simp
  have k: "0 + k < w * h" using assms by simp
  note px = pass2_pixel[OF len k, of ?rv ?m, simplified]
  have r0: "raw_at ?rv (2 * k) = Fin (raw_dx w h e k)"
    using assms raw_list_nth[of k "w * h" w h e] by (simp add: raw_at_def raw_list_length)
  have r1: "raw_at ?rv (Suc (2 * k)) = Fin (raw_dy w h e k)"
    using assms raw_list_nth[of k "w * h" w h e] by (simp add: raw_at_def raw_list_length)
  show "fst (generate w h e ds) ! (4 * k) = encode (snd (generate w h e ds)) (Fin (raw_dx w h e k))"
    and "fst (generate w h e ds) ! (4 * k + 1) = encode (snd (generate w h e ds)) (Fin (raw_dy w h e k))"
    and "fst (generate w h e ds) ! (4 * k + 2) = 0"
    and "fst (generate w h e ds) ! (4 * k + 3) = 255"
    using px r0 r1 by (simp_all add: generate_eq)
qed

lemma texel_index_lt: "x < w \<Longrightarrow> y < h \<Longrightarrow> y * w + x < w * (h::nat)"
proof -
  assume x: "x < w" and y: "y < h"
  have "y * w + x < y * w + w" using x by simp
  also have "\<dots> = Suc y * w" by simp
  also have "\<dots> \<le> h * w" using y by (intro mult_le_mono1) simp
  finally show ?thesis by (simp add: mult.commute)
qed

lemma updateShader_no_mismatch: "fst (updateShader s) \<noteq> LengthMismatch"
  by (simp add: updateShader_def Let_def case_prod_beta generate_length split: option.splits)

lemma round_half_even_bounds: "\<lfloor>v\<rfloor> \<le> round_half_even v \<and> round_half_even v \<le> \<lfloor>v\<rfloor> + 1"
  by (simp add: round_half_even_def Let_def)

lemma ToUint8Clamp_le: "ToUint8Clamp v \<le> 255"
proof (cases v)
  case (Fin x)
  show ?thesis
  proof (cases "0 < x \<and> x < 255")
    case True
    then have "\<lfloor>x\<rfloor> \<le> 254" by linarith
    with round_half_even_bounds[of x] have "round_half_even x \<le> 255" by linarith
    then show ?thesis using Fin True by simp
  next
    case False
    then show ?thesis using Fin by auto
  qed
qed simp_all

lemma generate_byte_cases:
  assumes "i < length (fst (generate w h e ds))"
  obtains k where "k < w * h" "i = 4 * k \<or> i = 4 * k + 1 \<or> i = 4 * k + 2 \<or> i = 4 * k + 3"
proof -
  from assms have i: "i < w * h * 4" by (simp add: generate_length)
  have "i div 4 < w * h" using i by (simp add: less_mult_imp_div_less)
  moreover have "i = 4 * (i div 4) \<or> i = 4 * (i div 4) + 1
      \<or> i = 4 * (i div 4) + 2 \<or> i = 4 * (i div 4) + 3" by presburger
  ultimately show ?thesis by (rule that)
qed

lemma generate_byte_le:
  assumes "i < length (fst (generate w h e ds))"
  shows "fst (generate w h e ds) ! i \<le> 255"
proof -
  from assms obtain k where k: "k < w * h"
    and i: "i = 4 * k \<or> i = 4 * k + 1 \<or> i = 4 * k + 2 \<or> i = 4 * k + 3"
    by (rule generate_byte_cases)
  from i show ?thesis
    using generate_texel[OF k, of e ds] by (auto simp: encode_def ToUint8Clamp_le)
qed

lemma length_xy_3_4: "length_xy (3 / 10) (2 / 5) = 1 / 2"
proof -
  have "length_xy (3 / 10) (2 / 5) = sqrt ((1 / 2)\<^sup>2)"
    by (simp add: length_xy_def power2_eq_square)
  then show ?thesis by simp
qed

lemma sdf_corner: "roundedRectSDF (- 1 / 2) (- 1 / 2) (3 / 10) (2 / 10) (1 / 10) = 2 / 5"
  using length_xy_3_4 by (simp add: roundedRectSDF_def Let_def)

lemma falloff_corner: "smoothStep (8 / 10) 0 (2 / 5 - 15 / 100) = 1573 / 2048"
  by (simp add: smoothStep_def Let_def)

lemma reshape_corner: "smoothStep 0 1 (1573 / 2048) = 3709019171 / 4294967296"
  by (simp add: smoothStep_def Let_def)

lemma scaled_corner: "fragment_scaled (1 / 10) (- 1 / 2) (- 1 / 2) = 3709019171 / 4294967296"
  unfolding fragment_scaled_def Let_def sdf_corner falloff_corner by (rule reshape_corner)

lemma raw_1_1: "raw_dx (Suc 0) (Suc 0) (1 / 10) 0 = 585948125 / 8589934592"
  "raw_dy (Suc 0) (Suc 0) (1 / 10) 0 = 585948125 / 8589934592"
  using scaled_corner by (simp_all add: raw_dx_def raw_dy_def shade_def Let_def)

lemma raw_max_1_1: "raw_max (Suc 0) (Suc 0) (1 / 10) 0 (Suc 0) 0 = 585948125 / 8589934592"
  by (simp add: raw_max_def raw_1_1)

section \<open>The claims\<close>

subsection \<open>Buffer length and the constant channels (C4, C5)\<close>

text \<open>
  C4. For every width \<open>w\<close> and height \<open>h\<close> (in particular for \<open>w, h \<ge> 1\<close>) the buffer that
  the generator produces has exactly \<open>4 * w * h\<close> bytes; hence the length check of lines
  130-140 of \<open>updateShader\<close> never reports a mismatch.
\<close>

theorem C4_buffer_length:
  "length (fst (generate w h e ds)) = 4 * w * h \<and> fst (updateShader s) \<noteq> LengthMismatch"
  using generate_length[of w h e ds] updateShader_no_mismatch[of s] by (simp add: mult.commute)

text \<open>
  C5. In every texel \<open>(x, y)\<close> of the output buffer (row-major, four bytes a texel) the
  fourth byte, alpha, is 255 and the third byte, blue, is 0, whatever the input.
\<close>

theorem C5_alpha_blue:
  "x < w \<Longrightarrow> y < h \<Longrightarrow>
     fst (generate w h e ds) ! (4 * (y * w + x) + 3) = 255
   \<and> fst (generate w h e ds) ! (4 * (y * w + x) + 2) = 0"
  using generate_texel(3,4)[OF texel_index_lt, of x w y h e ds] by simp

theorem C5_alpha_blue_witness:
  "(0::nat) < 1 \<and> fst (generate 1 1 (6 / 10) 1) ! (4 * (0 * 1 + 0) + 3) = 255
     \<and> fst (generate 1 1 (6 / 10) 1) ! (4 * (0 * 1 + 0) + 2) = 0"
  using C5_alpha_blue[of 0 1 0 1 "6 / 10" 1] by simp

subsection \<open>Saturating stores (C10)\<close>



lemma generate_1_1_scale: "snd (generate (Suc 0) (Suc 0) (1 / 10) ds) = 585948125 / 8589934592 * (1 / 2 * ds)"
  by (simp add: generate_maxScale raw_max_1_1)

lemma raw_xy:
  "x < w \<Longrightarrow> raw_dx w h e (y * w + x) = frag_dx (shade w h e x y)"
  "x < w \<Longrightarrow> raw_dy w h e (y * w + x) = frag_dy (shade w h e x y)"
  by (simp_all add: raw_dx_def raw_dy_def)

lemma generate_red_green:
  assumes "x < w" "y < h"
  shows "fst (generate w h e ds) ! (4 * (y * w + x)) =
           ToUint8Clamp (jmul (channel (snd (generate w h e ds)) (Fin (frag_dx (shade w h e x y)))) (Fin 255))"
    and "fst (generate w h e ds) ! (4 * (y * w + x) + 1) =
           ToUint8Clamp (jmul (channel (snd (generate w h e ds)) (Fin (frag_dy (shade w h e x y)))) (Fin 255))"
  using generate_texel(1,2)[OF texel_index_lt[OF assms], of e ds] assms(1)
  by (simp_all add: raw_xy encode_def)

lemma shade_1_1:
  "frag_scaled (shade (Suc 0) (Suc 0) (1 / 10) 0 0) = 3709019171 / 4294967296"
  "frag_dx (shade (Suc 0) (Suc 0) (1 / 10) 0 0) = 585948125 / 8589934592"
  "frag_dy (shade (Suc 0) (Suc 0) (1 / 10) 0 0) = 585948125 / 8589934592"
  using scaled_corner by (simp_all add: shade_def Let_def)

text \<open>
  C10. Every byte of the output buffer lies in \<open>[0, 255]\<close>, for every input. The red and
  green bytes of a texel are the clamped store of \<open>r * 255\<close> and \<open>g * 255\<close>, where
  \<open>r = dx / maxScale + 0.5\<close> may lie outside \<open>[0, 1]\<close> or be non-finite: the store
  saturates (255 and above gives 255, 0 and below gives 0, \<open>Infinity\<close> gives 255,
  \<open>-Infinity\<close> and \<open>NaN\<close> give 0).
\<close>

theorem C10_bytes_in_range:
  "(i < length (fst (generate w h e ds)) \<longrightarrow> fst (generate w h e ds) ! i \<le> 255)
   \<and> (x < w \<and> y < h \<longrightarrow>
        fst (generate w h e ds) ! (4 * (y * w + x)) =
          ToUint8Clamp (jmul (channel (snd (generate w h e ds)) (Fin (frag_dx (shade w h e x y)))) (Fin 255))
      \<and> fst (generate w h e ds) ! (4 * (y * w + x) + 1) =
          ToUint8Clamp (jmul (channel (snd (generate w h e ds)) (Fin (frag_dy (shade w h e x y)))) (Fin 255)))
   \<and> ToUint8Clamp v \<le> 255
   \<and> (255 \<le> a \<longrightarrow> ToUint8Clamp (Fin a) = 255)
   \<and> (b \<le> 0 \<longrightarrow> ToUint8Clamp (Fin b) = 0)
   \<and> ToUint8Clamp PInf = 255 \<and> ToUint8Clamp NInf = 0 \<and> ToUint8Clamp NaN = 0"
  using generate_byte_le[of i w h e ds] ToUint8Clamp_le[of v] generate_red_green[of x w y h e ds]
  by simp

theorem C10_bytes_in_range_witness:
  "0 < length (fst (generate 1 1 (1 / 10) 1)) \<and> fst (generate 1 1 (1 / 10) 1) ! 0 \<le> 255
   \<and> channel (snd (generate 1 1 (1 / 10) 1)) (Fin (frag_dx (shade 1 1 (1 / 10) 0 0))) = Fin (5 / 2)
   \<and> fst (generate 1 1 (1 / 10) 1) ! (4 * (0 * 1 + 0)) = 255
   \<and> fst (generate 1 1 (1 / 10) 1) ! (4 * (0 * 1 + 0) + 1) = 255
   \<and> ToUint8Clamp (Fin (5 / 2 * 255)) \<le> 255
   \<and> (255::real) \<le> 5 / 2 * 255 \<and> ToUint8Clamp (Fin (5 / 2 * 255)) = 255
   \<and> (- 3 / 2 * 255 :: real) \<le> 0 \<and> ToUint8Clamp (Fin (- 3 / 2 * 255)) = 0"
  using C10_bytes_in_range[of 0 1 1 "1 / 10" 1 0 0 "Fin (5 / 2 * 255)" "5 / 2 * 255" "- 3 / 2 * 255"]
  by (simp add: generate_length generate_1_1_scale shade_1_1 channel_def)

subsection \<open>The weight of a fragment (C9)\<close>

lemma cubic_unit:
  assumes "0 \<le> u" "u \<le> (1::real)"
  shows "0 \<le> u * u * (3 - 2 * u)" "u * u * (3 - 2 * u) \<le> 1"
proof -
  show "0 \<le> u * u * (3 - 2 * u)" using assms by simp
  have "1 - u * u * (3 - 2 * u) = (1 - u) * (1 - u) * (1 + 2 * u)"
    by (simp add: algebra_simps)
  moreover have "0 \<le> (1 - u) * (1 - u) * (1 + 2 * u)" using assms by simp
  ultimately show "u * u * (3 - 2 * u) \<le> 1" by linarith
qed

lemma smoothStep_unit: "0 \<le> smoothStep a b t \<and> smoothStep a b t \<le> 1"
proof -
  let ?u = "max 0 (min 1 ((t - a) / (b - a)))"
  have "0 \<le> ?u" "?u \<le> 1" by simp_all
  from cubic_unit[OF this] show ?thesis by (simp add: smoothStep_def Let_def)
qed

lemma fragment_scaled_unit: "0 \<le> fragment_scaled e ix iy \<and> fragment_scaled e ix iy \<le> 1"
  by (simp add: fragment_scaled_def Let_def smoothStep_unit)

lemma shade_scaled:
  "frag_scaled (shade w h e x y) = fragment_scaled e (real x / real w - 1 / 2) (real y / real h - 1 / 2)"
  by (simp add: shade_def Let_def)

text \<open>
  C9. Each of the two chained smoothstep applications clamps its ratio
  \<open>(t - a) / (b - a)\<close> to \<open>[0, 1]\<close> and returns \<open>u * u * (3 - 2 * u)\<close> of the clamped
  ratio \<open>u\<close>. So the falloff \<open>smoothStep 0.8 0 (distance - 0.15)\<close>, whose endpoints are in
  decreasing order, lies in \<open>[0, 1]\<close>, the second application leaves its ratio as it
  is, and the weight \<open>scaled\<close> of every pixel lies in \<open>[0, 1]\<close>, for every size and
  elasticity.
\<close>

theorem C9_scaled_unit_interval:
  fixes w h x y :: nat and e :: real
  defines "ix \<equiv> real x / real w - 1 / 2"
    and "iy \<equiv> real y / real h - 1 / 2"
  defines "d \<equiv> roundedRectSDF ix iy (3 / 10) (2 / 10) e"
  defines "u1 \<equiv> max 0 (min 1 ((d - 15 / 100 - 8 / 10) / (0 - 8 / 10)))"
  defines "u2 \<equiv> max 0 (min 1 ((u1 * u1 * (3 - 2 * u1) - 0) / (1 - 0)))"
  shows "smoothStep (8 / 10) 0 (d - 15 / 100) = u1 * u1 * (3 - 2 * u1)
       \<and> 0 \<le> u1 \<and> u1 \<le> 1
       \<and> 0 \<le> smoothStep (8 / 10) 0 (d - 15 / 100) \<and> smoothStep (8 / 10) 0 (d - 15 / 100) \<le> 1
       \<and> u2 = u1 * u1 * (3 - 2 * u1)
       \<and> frag_scaled (shade w h e x y) = u2 * u2 * (3 - 2 * u2)
       \<and> 0 \<le> frag_scaled (shade w h e x y) \<and> frag_scaled (shade w h e x y) \<le> 1"
proof -
  have u1: "0 \<le> u1" "u1 \<le> 1" by (simp_all add: u1_def)
  have s1: "smoothStep (8 / 10) 0 (d - 15 / 100) = u1 * u1 * (3 - 2 * u1)"
    by (simp add: smoothStep_def Let_def u1_def)
  have u2: "u2 = u1 * u1 * (3 - 2 * u1)"
    using cubic_unit[OF u1] by (simp add: u2_def)
  have sc: "frag_scaled (shade w h e x y) = u2 * u2 * (3 - 2 * u2)"
    unfolding shade_scaled fragment_scaled_def Let_def ix_def[symmetric] iy_def[symmetric]
      d_def[symmetric] s1
    by (simp add: smoothStep_def Let_def u2_def)
  show ?thesis
    using u1 s1 u2 sc cubic_unit[OF u1] fragment_scaled_unit[of e ix iy]
    by (simp add: shade_scaled ix_def iy_def)
qed

subsection \<open>What updateShader writes\<close>

lemma updateShader_mounted:
  assumes "mounted s"
  shows "updateShader s =
    (Updated,
     s\<lparr> canvasRef := Some \<lparr> canvas_width = canvas_w s, canvas_height = canvas_h s,
            bitmap = fst (generate (canvas_w s) (canvas_h s) (elasticity s) (displacementScale s)) \<rparr>,
        feImageRef := Some (Some \<lparr> canvas_width = canvas_w s, canvas_height = canvas_h s,
            bitmap = fst (generate (canvas_w s) (canvas_h s) (elasticity s) (displacementScale s)) \<rparr>),
        feDisplacementMapRef :=
          Some (Some (snd (generate (canvas_w s) (canvas_h s) (elasticity s) (displacementScale s)))) \<rparr>)"
proof -
  from assms obtain cv href scale where refs:
    "canvasRef s = Some cv" "feImageRef s = Some href" "feDisplacementMapRef s = Some scale"
    and ctx: "context2d s"
    by (auto simp: mounted_def)
  let ?w = "canvas_w s" and ?h = "canvas_h s"
  let ?g = "generate ?w ?h (elasticity s) (displacementScale s)"
  have pos: "0 < ?w" "0 < ?h" by (simp_all add: canvas_w_def canvas_h_def)
  have len: "length (fst ?g) = ?w * ?h * 4" by (rule generate_length)
  then have ne: "fst ?g \<noteq> []" using pos by auto
  have img: "ImageData (fst ?g) ?w ?h =
      Some \<lparr> canvas_width = ?w, canvas_height = ?h, bitmap = fst ?g \<rparr>"
    using len ne by (simp add: ImageData_def mult.commute mult.left_commute)
  have rs: "resize_canvas cv ?w ?h\<lparr> bitmap := fst ?g \<rparr> =
      \<lparr> canvas_width = ?w, canvas_height = ?h, bitmap = fst ?g \<rparr>"
    by (simp add: resize_canvas_def)
  have w: "nat (max 1 \<lfloor>width s * canvasDPI\<rfloor>) = ?w"
    and h: "nat (max 1 \<lfloor>height s * canvasDPI\<rfloor>) = ?h"
    by (simp_all add: canvas_w_def canvas_h_def)
  have nz: "\<not> (max 1 \<lfloor>width s * canvasDPI\<rfloor> \<le> 0 \<or> max 1 \<lfloor>height s * canvasDPI\<rfloor> \<le> 0)"
    by simp
  have dpi: "\<And>v. v / canvasDPI = v" by (simp add: canvasDPI_def)
  show ?thesis
    unfolding updateShader_def refs
    using ctx nz len img rs
    by (simp add: Let_def case_prod_beta w h dpi del: max_less_iff_conj max.bounded_iff)
qed

subsection \<open>The offsets of a pixel (C1)\<close>

lemma shade_offsets:
  assumes "1 \<le> w" "1 \<le> h"
  shows "frag_dx (shade w h e x y) = (real w / 2 - real x) * (1 - frag_scaled (shade w h e x y))"
    and "frag_dy (shade w h e x y) = (real h / 2 - real y) * (1 - frag_scaled (shade w h e x y))"
proof -
  have w: "real w \<noteq> 0" and h: "real h \<noteq> 0" using assms by simp_all
  show "frag_dx (shade w h e x y) = (real w / 2 - real x) * (1 - frag_scaled (shade w h e x y))"
    using w by (simp add: shade_def Let_def field_simps)
  show "frag_dy (shade w h e x y) = (real h / 2 - real y) * (1 - frag_scaled (shade w h e x y))"
    using h by (simp add: shade_def Let_def field_simps)
qed

lemma sdf_inner: "roundedRectSDF (- 1 / 10) (- 1 / 10) (3 / 10) (2 / 10) (1 / 10) = - 1 / 10"
  by (simp add: roundedRectSDF_def Let_def length_xy_def)

lemma falloff_inner: "smoothStep (8 / 10) 0 (- 1 / 10 - 15 / 100) = 1"
  by (simp add: smoothStep_def Let_def)

lemma reshape_one: "smoothStep 0 1 1 = 1"
  by (simp add: smoothStep_def Let_def)

lemma scaled_inner: "fragment_scaled (1 / 10) (- 1 / 10) (- 1 / 10) = 1"
  unfolding fragment_scaled_def Let_def sdf_inner falloff_inner by (rule reshape_one)

lemma shade_inner:
  "frag_scaled (shade 10 10 (1 / 10) 4 4) = 1"
  "frag_dx (shade 10 10 (1 / 10) 4 4) = 0"
  "frag_dy (shade 10 10 (1 / 10) 4 4) = 0"
  using scaled_inner by (simp_all add: shade_def Let_def)

lemma cubic_le:
  assumes "0 \<le> u" "u \<le> (c::real)"
  shows "u * u * (3 - 2 * u) \<le> 3 * (c * c)"
proof -
  have "u * u \<le> c * c" using assms by (intro mult_mono) simp_all
  moreover have "u * u * (3 - 2 * u) \<le> u * u * 3"
    using assms by (intro mult_left_mono) simp_all
  ultimately show ?thesis by simp
qed

lemma sdf_far: "19 / 25 \<le> roundedRectSDF (- 1 / 2) (- 1 / 2) (3 / 10) (2 / 10) 1"
proof -
  have "(44 / 25 :: real)\<^sup>2 \<le> 313 / 100" by (simp add: power2_eq_square)
  then have "44 / 25 \<le> sqrt (313 / 100)" by (rule real_le_rsqrt)
  moreover have "roundedRectSDF (- 1 / 2) (- 1 / 2) (3 / 10) (2 / 10) 1 = sqrt (313 / 100) - 1"
    by (simp add: roundedRectSDF_def Let_def length_xy_def)
  ultimately show ?thesis by simp
qed

lemma scaled_far: "fragment_scaled 1 (- 1 / 2) (- 1 / 2) < 1 / 10"
proof -
  define d where "d = roundedRectSDF (- 1 / 2) (- 1 / 2) (3 / 10) (2 / 10) 1"
  define r where "r = (d - 15 / 100 - 8 / 10) / (0 - 8 / 10)"
  define u1 where "u1 = max 0 (min 1 r)"
  define v where "v = smoothStep (8 / 10) 0 (d - 15 / 100)"
  have d: "19 / 25 \<le> d" unfolding d_def by (rule sdf_far)
  have "r = (19 / 20 - d) * (5 / 4)" by (simp add: r_def field_simps)
  with d have r: "r \<le> 19 / 80" by simp
  have u1: "0 \<le> u1" "u1 \<le> 19 / 80" using r by (simp_all add: u1_def)
  have v_eq: "v = u1 * u1 * (3 - 2 * u1)"
    by (simp add: v_def smoothStep_def Let_def u1_def r_def)
  have v: "0 \<le> v" "v \<le> 9 / 50"
    using cubic_le[OF u1] cubic_unit(1)[of u1] u1 by (simp_all add: v_eq)
  have "fragment_scaled 1 (- 1 / 2) (- 1 / 2) = smoothStep 0 1 v"
    by (simp add: fragment_scaled_def Let_def v_def d_def)
  also have "\<dots> = v * v * (3 - 2 * v)"
    using v by (simp add: smoothStep_def Let_def)
  also have "\<dots> \<le> 3 * (9 / 50 * (9 / 50))" by (rule cubic_le[OF v])
  also have "\<dots> < 1 / 10" by simp
  finally show ?thesis .
qed

lemma shade_far:
  "frag_scaled (shade 1 1 1 0 0) < 1 / 10"
  "9 / 20 < frag_dx (shade 1 1 1 0 0)"
  "9 / 20 < frag_dy (shade 1 1 1 0 0)"
  using scaled_far by (simp_all add: shade_def Let_def)

lemma cubic_strict:
  assumes "0 < u" "u < (1::real)"
  shows "0 < u * u * (3 - 2 * u)" "u * u * (3 - 2 * u) < 1"
proof -
  show "0 < u * u * (3 - 2 * u)" using assms by simp
  have "1 - u * u * (3 - 2 * u) = (1 - u) * (1 - u) * (1 + 2 * u)"
    by (simp add: algebra_simps)
  moreover have "0 < (1 - u) * (1 - u) * (1 + 2 * u)" using assms by simp
  ultimately show "u * u * (3 - 2 * u) < 1" by linarith
qed

lemma falloff_cases:
  "d \<le> 15 / 100 \<Longrightarrow> smoothStep (8 / 10) 0 (d - 15 / 100) = 1"
  "95 / 100 \<le> d \<Longrightarrow> smoothStep (8 / 10) 0 (d - 15 / 100) = 0"
  "15 / 100 < d \<Longrightarrow> d < 95 / 100 \<Longrightarrow>
     0 < smoothStep (8 / 10) 0 (d - 15 / 100) \<and> smoothStep (8 / 10) 0 (d - 15 / 100) < 1"
proof -
  define r where "r = (d - 15 / 100 - 8 / 10) / (0 - 8 / 10)"
  have r: "r = (19 / 20 - d) * (5 / 4)" by (simp add: r_def field_simps)
  have s: "smoothStep (8 / 10) 0 (d - 15 / 100) =
      max 0 (min 1 r) * max 0 (min 1 r) * (3 - 2 * max 0 (min 1 r))"
    by (simp add: smoothStep_def Let_def r_def)
  { assume "d \<le> 15 / 100"
    then have "1 \<le> r" unfolding r by simp
    then have "max 0 (min 1 r) = 1" by simp
    then show "smoothStep (8 / 10) 0 (d - 15 / 100) = 1" unfolding s by simp }
  { assume "95 / 100 \<le> d"
    then have "r \<le> 0" unfolding r by simp
    then have "max 0 (min 1 r) = 0" by simp
    then show "smoothStep (8 / 10) 0 (d - 15 / 100) = 0" unfolding s by simp }
  { assume "15 / 100 < d" "d < 95 / 100"
    then have "0 < r" "r < 1" unfolding r by simp_all
    then have m: "max 0 (min 1 r) = r" by simp
    show "0 < smoothStep (8 / 10) 0 (d - 15 / 100) \<and> smoothStep (8 / 10) 0 (d - 15 / 100) < 1"
      unfolding s m using cubic_strict[OF \<open>0 < r\<close> \<open>r < 1\<close>] by simp }
qed

lemma reshape_cases:
  "smoothStep 0 1 1 = 1" "smoothStep 0 1 0 = 0"
  "0 < v \<Longrightarrow> v < 1 \<Longrightarrow> 0 < smoothStep 0 1 v \<and> smoothStep 0 1 v < 1"
proof -
  show "smoothStep 0 1 1 = 1" "smoothStep 0 1 0 = 0" by (simp_all add: smoothStep_def Let_def)
  assume v: "0 < v" "v < 1"
  then have "smoothStep 0 1 v = v * v * (3 - 2 * v)" by (simp add: smoothStep_def Let_def)
  with cubic_strict[OF v] show "0 < smoothStep 0 1 v \<and> smoothStep 0 1 v < 1" by simp
qed

lemma fragment_scaled_cases:
  "roundedRectSDF ix iy (3 / 10) (2 / 10) e \<le> 15 / 100 \<Longrightarrow> fragment_scaled e ix iy = 1"
  "95 / 100 \<le> roundedRectSDF ix iy (3 / 10) (2 / 10) e \<Longrightarrow> fragment_scaled e ix iy = 0"
  "15 / 100 < roundedRectSDF ix iy (3 / 10) (2 / 10) e \<Longrightarrow>
   roundedRectSDF ix iy (3 / 10) (2 / 10) e < 95 / 100 \<Longrightarrow>
     0 < fragment_scaled e ix iy \<and> fragment_scaled e ix iy < 1"
  using falloff_cases[of "roundedRectSDF ix iy (3 / 10) (2 / 10) e"]
  by (simp_all add: fragment_scaled_def Let_def reshape_cases)

lemma length_xy_20_21: "length_xy 2 (21 / 10) = 29 / 10"
proof -
  have "length_xy 2 (21 / 10) = sqrt ((29 / 10)\<^sup>2)"
    by (simp add: length_xy_def power2_eq_square)
  then show ?thesis by simp
qed

lemma sdf_wide: "roundedRectSDF (- 1 / 2) (- 1 / 2) (3 / 10) (2 / 10) (9 / 5) = 11 / 10"
  using length_xy_20_21 by (simp add: roundedRectSDF_def Let_def)

text \<open>
  C1 (as amended). For every pixel \<open>(x, y)\<close> of a \<open>w \<times> h\<close> region (\<open>w, h \<ge> 1\<close>) the fragment
  computes \<open>pos = (ix * scaled + 0.5, iy * scaled + 0.5)\<close> from the recentred
  coordinates, and the offsets \<open>dx = pos.x * w - x\<close>, \<open>dy = pos.y * h - y\<close> are
  \<open>(w / 2 - x) * (1 - scaled)\<close> and \<open>(h / 2 - y) * (1 - scaled)\<close>. A pixel inside the
  glass shape, or outside it at a signed distance of at most 0.15
  (\<open>roundedRectSDF \<le> 0.15\<close>), has \<open>scaled = 1\<close> and is not displaced. A pixel at a
  signed distance of 0.95 or more has \<open>scaled = 0\<close> and is displaced by its whole offset
  from the centre. In between, \<open>0 < scaled < 1\<close>, and the pull toward the centre is
  proportional to \<open>1 - scaled\<close>.
\<close>

theorem C1_offsets:
  fixes w h x y :: nat and e :: real
  assumes "1 \<le> w" "1 \<le> h"
  defines "f \<equiv> shade w h e x y"
  defines "d \<equiv> roundedRectSDF (real x / real w - 1 / 2) (real y / real h - 1 / 2)
                  (3 / 10) (2 / 10) e"
  shows "pos_x f = (real x / real w - 1 / 2) * frag_scaled f + 1 / 2
       \<and> pos_y f = (real y / real h - 1 / 2) * frag_scaled f + 1 / 2
       \<and> frag_dx f = pos_x f * real w - real x
       \<and> frag_dy f = pos_y f * real h - real y
       \<and> frag_dx f = (real w / 2 - real x) * (1 - frag_scaled f)
       \<and> frag_dy f = (real h / 2 - real y) * (1 - frag_scaled f)
       \<and> (d \<le> 15 / 100 \<longrightarrow> frag_scaled f = 1 \<and> frag_dx f = 0 \<and> frag_dy f = 0)
       \<and> (95 / 100 \<le> d \<longrightarrow>
            frag_scaled f = 0 \<and> frag_dx f = real w / 2 - real x \<and> frag_dy f = real h / 2 - real y)
       \<and> (15 / 100 < d \<and> d < 95 / 100 \<longrightarrow> 0 < frag_scaled f \<and> frag_scaled f < 1)"
proof -
  have p: "pos_x f = (real x / real w - 1 / 2) * frag_scaled f + 1 / 2"
    "pos_y f = (real y / real h - 1 / 2) * frag_scaled f + 1 / 2"
    "frag_dx f = pos_x f * real w - real x"
    "frag_dy f = pos_y f * real h - real y"
    by (simp_all add: f_def shade_def Let_def)
  have o: "frag_dx f = (real w / 2 - real x) * (1 - frag_scaled f)"
    "frag_dy f = (real h / 2 - real y) * (1 - frag_scaled f)"
    unfolding f_def by (rule shade_offsets[OF assms(1,2)])+
  have sc: "frag_scaled f = fragment_scaled e (real x / real w - 1 / 2) (real y / real h - 1 / 2)"
    unfolding f_def by (rule shade_scaled)
  have one: "frag_scaled f = 1" if "d \<le> 15 / 100"
    using that unfolding sc d_def by (rule fragment_scaled_cases(1))
  have zero: "frag_scaled f = 0" if "95 / 100 \<le> d"
    using that unfolding sc d_def by (rule fragment_scaled_cases(2))
  have mid: "0 < frag_scaled f \<and> frag_scaled f < 1" if "15 / 100 < d" "d < 95 / 100"
    using that unfolding sc d_def by (rule fragment_scaled_cases(3))
  have a: "d \<le> 15 / 100 \<longrightarrow> frag_scaled f = 1 \<and> frag_dx f = 0 \<and> frag_dy f = 0"
    using one o by simp
  have b: "95 / 100 \<le> d \<longrightarrow>
      frag_scaled f = 0 \<and> frag_dx f = real w / 2 - real x \<and> frag_dy f = real h / 2 - real y"
    using zero o by simp
  have c: "15 / 100 < d \<and> d < 95 / 100 \<longrightarrow> 0 < frag_scaled f \<and> frag_scaled f < 1"
    using mid by blast
  from p o a b c show ?thesis by blast
qed

theorem C1_offsets_witness:
  "(1::nat) \<le> 10
   \<and> roundedRectSDF (real 4 / real 10 - 1 / 2) (real 4 / real 10 - 1 / 2) (3 / 10) (2 / 10) (1 / 10)
       \<le> 15 / 100
   \<and> real 10 / 2 - real 4 = 1
   \<and> frag_scaled (shade 10 10 (1 / 10) 4 4) = 1
   \<and> frag_dx (shade 10 10 (1 / 10) 4 4) = 0
   \<and> frag_dy (shade 10 10 (1 / 10) 4 4) = 0
   \<and> (1::nat) \<le> 1
   \<and> 95 / 100
       \<le> roundedRectSDF (real 0 / real 1 - 1 / 2) (real 0 / real 1 - 1 / 2) (3 / 10) (2 / 10) (9 / 5)
   \<and> frag_scaled (shade 1 1 (9 / 5) 0 0) = 0
   \<and> frag_dx (shade 1 1 (9 / 5) 0 0) = real 1 / 2 - real 0
   \<and> frag_dy (shade 1 1 (9 / 5) 0 0) = real 1 / 2 - real 0
   \<and> 15 / 100
       < roundedRectSDF (real 0 / real 1 - 1 / 2) (real 0 / real 1 - 1 / 2) (3 / 10) (2 / 10) (1 / 10)
   \<and> roundedRectSDF (real 0 / real 1 - 1 / 2) (real 0 / real 1 - 1 / 2) (3 / 10) (2 / 10) (1 / 10)
       < 95 / 100
   \<and> 0 < frag_scaled (shade 1 1 (1 / 10) 0 0)
   \<and> frag_scaled (shade 1 1 (1 / 10) 0 0) < 1
   \<and> frag_dx (shade 1 1 (1 / 10) 0 0) =
       (real 1 / 2 - real 0) * (1 - frag_scaled (shade 1 1 (1 / 10) 0 0))"
  using C1_offsets[where w = 10 and h = 10 and x = 4 and y = 4 and e = "1 / 10"]
    C1_offsets[where w = 1 and h = 1 and x = 0 and y = 0 and e = "9 / 5"]
    C1_offsets[where w = 1 and h = 1 and x = 0 and y = 0 and e = "1 / 10"]
    sdf_inner sdf_wide sdf_corner
  by simp

theorem C1_counterexample:
  "frag_scaled (shade 10 10 (1 / 10) 4 4) = 1
   \<and> frag_dx (shade 10 10 (1 / 10) 4 4) = 0
   \<and> frag_dy (shade 10 10 (1 / 10) 4 4) = 0
   \<and> frag_scaled (shade 1 1 1 0 0) < 1 / 10
   \<and> 9 / 20 < frag_dx (shade 1 1 1 0 0)
   \<and> 9 / 20 < frag_dy (shade 1 1 1 0 0)"
  using shade_inner shade_far by simp

subsection \<open>The normalisation scalar (C3)\<close>

lemma fold_max_Max:
  fixes f :: "nat \<Rightarrow> real"
  shows "fold (\<lambda>j m. max m (f j)) [k..<n] m = Max (insert m (f ` {k..<n}))"
proof (induction n)
  case 0
  then show ?case by simp
next
  case (Suc n)
  show ?case
  proof (cases "k \<le> n")
    case True
    then have "{k..<Suc n} = insert n {k..<n}" by auto
    then have "Max (insert m (f ` {k..<Suc n})) = Max (insert (f n) (insert m (f ` {k..<n})))"
      by (simp add: insert_commute)
    also have "\<dots> = max (f n) (Max (insert m (f ` {k..<n})))"
      by (rule Max_insert) simp_all
    finally show ?thesis using True Suc.IH by (simp add: max.commute)
  next
    case False
    then show ?thesis by simp
  qed
qed

lemma raw_max_Max:
  "raw_max w h e 0 n 0 =
     Max (insert 0 ((\<lambda>j. max \<bar>raw_dx w h e j\<bar> \<bar>raw_dy w h e j\<bar>) ` {0..<n}))"
  unfolding raw_max_def by (rule fold_max_Max)

lemma raw_max_nonneg: "0 \<le> raw_max w h e 0 n 0"
  unfolding raw_max_Max by (rule Max_ge) simp_all

lemma texel_image:
  assumes "1 \<le> w"
  shows "(\<lambda>j. g (j mod w) (j div w)) ` {0..<w * h} = (\<lambda>(x, y). g x y) ` ({0..<w} \<times> {0..<h::nat})"
proof (intro equalityI subsetI)
  fix v assume "v \<in> (\<lambda>j. g (j mod w) (j div w)) ` {0..<w * h}"
  then obtain j where j: "j < w * h" and v: "v = g (j mod w) (j div w)" by auto
  have "j mod w < w" using assms by simp
  moreover have "j div w < h" using j by (simp add: less_mult_imp_div_less mult.commute)
  ultimately show "v \<in> (\<lambda>(x, y). g x y) ` ({0..<w} \<times> {0..<h})"
    using v by force
next
  fix v assume "v \<in> (\<lambda>(x, y). g x y) ` ({0..<w} \<times> {0..<h})"
  then obtain x y where xy: "x < w" "y < h" and v: "v = g x y" by auto
  have "y * w + x < w * h" using xy by (rule texel_index_lt)
  moreover have "g ((y * w + x) mod w) ((y * w + x) div w) = g x y" using xy(1) by simp
  ultimately show "v \<in> (\<lambda>j. g (j mod w) (j div w)) ` {0..<w * h}"
    using v by (metis (mono_tags, lifting) atLeastLessThan_iff image_eqI le0)
qed

lemma raw_max_grid:
  assumes "1 \<le> w" "1 \<le> h"
  shows "raw_max w h e 0 (w * h) 0 =
    Max ((\<lambda>(x, y). max \<bar>frag_dx (shade w h e x y)\<bar> \<bar>frag_dy (shade w h e x y)\<bar>) `
          ({0..<w} \<times> {0..<h}))"
proof -
  let ?g = "\<lambda>x y. max \<bar>frag_dx (shade w h e x y)\<bar> \<bar>frag_dy (shade w h e x y)\<bar>"
  let ?S = "(\<lambda>(x, y). ?g x y) ` ({0..<w} \<times> {0..<h})"
  have img: "(\<lambda>j. max \<bar>raw_dx w h e j\<bar> \<bar>raw_dy w h e j\<bar>) ` {0..<w * h} = ?S"
    using texel_image[OF assms(1), of ?g h] by (simp add: raw_dx_def raw_dy_def)
  have fin: "finite ?S" by simp
  have ne: "?S \<noteq> {}" using assms by (auto simp: Suc_le_eq)
  have "?g 0 0 \<in> ?S" using assms by (force simp: Suc_le_eq)
  then have "?g 0 0 \<le> Max ?S" using fin by (rule Max_ge[rotated])
  moreover have "0 \<le> ?g 0 0" by simp
  ultimately have nonneg: "0 \<le> Max ?S" by linarith
  have "raw_max w h e 0 (w * h) 0 = Max (insert 0 ?S)"
    by (simp add: raw_max_Max img)
  also have "\<dots> = max 0 (Max ?S)" using fin ne by (rule Max_insert)
  also have "\<dots> = Max ?S" using nonneg by simp
  finally show ?thesis .
qed

lemma decode_bound:
  assumes "0 \<le> m" "b \<le> (255::nat)"
  shows "\<bar>(real b / 255 - 1 / 2) * m\<bar> \<le> m"
proof -
  have "\<bar>real b / 255 - 1 / 2\<bar> \<le> 1" using assms(2) by (simp add: abs_le_iff field_simps)
  then have "\<bar>real b / 255 - 1 / 2\<bar> * m \<le> 1 * m" using assms(1) by (rule mult_right_mono)
  then show ?thesis using assms(1) by (simp add: abs_mult)
qed

text \<open>
  C3 (as amended). For every \<open>w, h \<ge> 1\<close> and every elasticity, \<open>maxScale\<close> is the maximum over all
  pixels of \<open>max \<bar>dx\<bar> \<bar>dy\<bar>\<close>, multiplied by \<open>0.5 * displacementScale\<close>. For a
  displacement scale that is not negative, \<open>maxScale \<ge> 0\<close>, and decoding any byte of the
  buffer as \<open>(value / 255 - 0.5) * maxScale\<close> gives an absolute value of at most
  \<open>maxScale\<close>.
\<close>

theorem C3_maxScale:
  assumes "1 \<le> w" "1 \<le> h"
  shows "snd (generate w h e ds) =
           Max ((\<lambda>(x, y). max \<bar>frag_dx (shade w h e x y)\<bar> \<bar>frag_dy (shade w h e x y)\<bar>) `
                  ({0..<w} \<times> {0..<h})) * (1 / 2 * ds)
       \<and> (0 \<le> ds \<longrightarrow> 0 \<le> snd (generate w h e ds))
       \<and> (0 \<le> ds \<and> i < length (fst (generate w h e ds)) \<longrightarrow>
            \<bar>(real (fst (generate w h e ds) ! i) / 255 - 1 / 2) * snd (generate w h e ds)\<bar>
              \<le> snd (generate w h e ds))"
proof -
  have nonneg: "0 \<le> snd (generate w h e ds)" if "0 \<le> ds"
    using that raw_max_nonneg[of w h e "w * h"] by (simp add: generate_maxScale)
  show ?thesis
    using raw_max_grid[OF assms, of e] nonneg decode_bound generate_byte_le[of i w h e ds]
    by (simp add: generate_maxScale)
qed

theorem C3_maxScale_witness:
  "(1::nat) \<le> 1
   \<and> snd (generate 1 1 (1 / 10) 1) =
       Max ((\<lambda>(x, y). max \<bar>frag_dx (shade 1 1 (1 / 10) x y)\<bar> \<bar>frag_dy (shade 1 1 (1 / 10) x y)\<bar>) `
              ({0..<1} \<times> {0..<1})) * (1 / 2 * 1)
   \<and> (0::real) \<le> 1 \<and> 0 \<le> snd (generate 1 1 (1 / 10) 1)
   \<and> 0 < length (fst (generate 1 1 (1 / 10) 1))
   \<and> \<bar>(real (fst (generate 1 1 (1 / 10) 1) ! 0) / 255 - 1 / 2) * snd (generate 1 1 (1 / 10) 1)\<bar>
        \<le> snd (generate 1 1 (1 / 10) 1)"
  using C3_maxScale[of 1 1 "1 / 10" 1 0] by (simp add: generate_length)

theorem C3_counterexample:
  "snd (generate 1 1 (1 / 10) (- 1)) = - (585948125 / 17179869184)
   \<and> snd (generate 1 1 (1 / 10) (- 1)) < 0
   \<and> \<not> \<bar>(real (fst (generate 1 1 (1 / 10) (- 1)) ! 0) / 255 - 1 / 2)
          * snd (generate 1 1 (1 / 10) (- 1))\<bar> \<le> snd (generate 1 1 (1 / 10) (- 1))"
  by (simp add: generate_1_1_scale)

subsection \<open>Division by a zero scale (C2)\<close>








subsection \<open>The sign of the distance field (C7)\<close>

lemma length_xy_axis: "length_xy x 0 = \<bar>x\<bar>" "length_xy 0 y = \<bar>y\<bar>"
  by (simp_all add: length_xy_def)

lemma length_xy_less_iff: "0 < r \<Longrightarrow> length_xy x y < r \<longleftrightarrow> x * x + y * y < r * r"
proof -
  assume r: "0 < r"
  have "length_xy x y < r \<longleftrightarrow> sqrt (x * x + y * y) < sqrt (r * r)"
    using r by (simp add: length_xy_def)
  then show ?thesis by (simp only: real_sqrt_less_iff)
qed

lemma length_xy_le_iff: "0 < r \<Longrightarrow> length_xy x y \<le> r \<longleftrightarrow> x * x + y * y \<le> r * r"
proof -
  assume r: "0 < r"
  have "length_xy x y \<le> r \<longleftrightarrow> sqrt (x * x + y * y) \<le> sqrt (r * r)"
    using r by (simp add: length_xy_def)
  then show ?thesis by (simp only: real_sqrt_le_iff)
qed

lemma square_less_radius:
  assumes "0 < cx" "0 < cy" "cx * cx + cy * cy \<le> r * r" "0 < (r::real)"
  shows "cx < r" "cy < r"
proof -
  have "cx * cx < r * r" using assms mult_pos_pos[of cy cy] by linarith
  then show "cx < r" using assms by (meson mult_mono not_less less_imp_le)
  have "cy * cy < r * r" using assms mult_pos_pos[of cx cx] by linarith
  then show "cy < r" using assms by (meson mult_mono not_less less_imp_le)
qed

lemma sdf_sign:
  assumes r: "0 < r" "r \<le> a" "r \<le> b"
  shows "roundedRectSDF x y a b r < 0 \<longleftrightarrow> spec_rr_inside a b r x y"
    and "roundedRectSDF x y a b r \<le> 0 \<longleftrightarrow> spec_rr_closed a b r x y"
proof -
  define cx where "cx = \<bar>x\<bar> - a + r"
  define cy where "cy = \<bar>y\<bar> - b + r"
  have rad: "spec_corner_radius a b r = r" using r by (simp add: spec_corner_radius_def)
  have sdf: "roundedRectSDF x y a b r = min (max cx cy) 0 + length_xy (max cx 0) (max cy 0) - r"
    by (simp add: roundedRectSDF_def Let_def cx_def cy_def)
  have c: "\<bar>x\<bar> - (a - r) = cx" "\<bar>y\<bar> - (b - r) = cy"
    by (simp_all add: cx_def cy_def)
  have lt_iff: "\<bar>x\<bar> < a \<longleftrightarrow> cx < r" "\<bar>y\<bar> < b \<longleftrightarrow> cy < r"
    and le_iff: "\<bar>x\<bar> \<le> a \<longleftrightarrow> cx \<le> r" "\<bar>y\<bar> \<le> b \<longleftrightarrow> cy \<le> r"
    by (simp_all add: cx_def cy_def)
  have pos_iff: "a - r < \<bar>x\<bar> \<longleftrightarrow> 0 < cx" "b - r < \<bar>y\<bar> \<longleftrightarrow> 0 < cy"
    by (auto simp: cx_def cy_def)
  have ins: "spec_rr_inside a b r x y \<longleftrightarrow>
      cx < r \<and> cy < r \<and> (0 < cx \<and> 0 < cy \<longrightarrow> cx * cx + cy * cy < r * r)"
    by (auto simp: spec_rr_inside_def Let_def rad c lt_iff pos_iff)
  have clo: "spec_rr_closed a b r x y \<longleftrightarrow>
      cx \<le> r \<and> cy \<le> r \<and> (0 < cx \<and> 0 < cy \<longrightarrow> cx * cx + cy * cy \<le> r * r)"
    by (auto simp: spec_rr_closed_def Let_def rad c le_iff pos_iff)
  consider (in_box) "cx \<le> 0" "cy \<le> 0" | (right) "0 < cx" "cy \<le> 0"
    | (top) "cx \<le> 0" "0 < cy" | (corner) "0 < cx" "0 < cy"
    by linarith
  then have "(roundedRectSDF x y a b r < 0 \<longleftrightarrow> spec_rr_inside a b r x y)
      \<and> (roundedRectSDF x y a b r \<le> 0 \<longleftrightarrow> spec_rr_closed a b r x y)"
  proof cases
    case in_box
    then have "roundedRectSDF x y a b r = max cx cy - r"
      by (simp add: sdf length_xy_axis)
    then show ?thesis using in_box r(1) by (auto simp: ins clo)
  next
    case right
    then have "roundedRectSDF x y a b r = cx - r"
      by (simp add: sdf length_xy_axis max_def)
    then show ?thesis using right r(1) by (auto simp: ins clo)
  next
    case top
    then have "roundedRectSDF x y a b r = cy - r"
      by (simp add: sdf length_xy_axis max_def)
    then show ?thesis using top r(1) by (auto simp: ins clo)
  next
    case corner
    then have eq: "roundedRectSDF x y a b r = length_xy cx cy - r"
      by (simp add: sdf max_def)
    have lt: "roundedRectSDF x y a b r < 0 \<longleftrightarrow> cx * cx + cy * cy < r * r"
      using length_xy_less_iff[OF r(1), of cx cy] by (simp add: eq)
    have le: "roundedRectSDF x y a b r \<le> 0 \<longleftrightarrow> cx * cx + cy * cy \<le> r * r"
      using length_xy_le_iff[OF r(1), of cx cy] by (simp add: eq)
    show ?thesis
      using corner square_less_radius[OF corner _ r(1)]
      by (auto simp: ins clo lt le)
  qed
  then show "roundedRectSDF x y a b r < 0 \<longleftrightarrow> spec_rr_inside a b r x y"
    and "roundedRectSDF x y a b r \<le> 0 \<longleftrightarrow> spec_rr_closed a b r x y"
    by simp_all
qed

lemma sdf_default_radius: "0 < roundedRectSDF (1 / 4) 0 (3 / 10) (2 / 10) (6 / 10)"
proof -
  have "(3 / 5 :: real)\<^sup>2 < 37 / 80" by (simp add: power2_eq_square)
  then have "3 / 5 < sqrt (37 / 80)" by (rule real_less_rsqrt)
  moreover have "roundedRectSDF (1 / 4) 0 (3 / 10) (2 / 10) (6 / 10) = sqrt (37 / 80) - 3 / 5"
    by (simp add: roundedRectSDF_def Let_def length_xy_def)
  ultimately show ?thesis by simp
qed

text \<open>
  C7 (as amended). For a corner radius \<open>0 < elasticity \<le> 0.2\<close>, the smaller half-extent,
  the value \<open>roundedRectSDF ix iy 0.3 0.2 elasticity\<close> is negative exactly at the points
  strictly inside the rounded rectangle with half-extents \<open>(0.3, 0.2)\<close> and that corner
  radius, positive exactly at the points outside it and zero exactly on its boundary.
\<close>

theorem C7_sdf_sign:
  assumes "0 < e" "e \<le> 2 / 10"
  shows "(roundedRectSDF x y (3 / 10) (2 / 10) e < 0 \<longleftrightarrow> spec_rr_inside (3 / 10) (2 / 10) e x y)
       \<and> (0 < roundedRectSDF x y (3 / 10) (2 / 10) e \<longleftrightarrow> spec_rr_outside (3 / 10) (2 / 10) e x y)
       \<and> (roundedRectSDF x y (3 / 10) (2 / 10) e = 0 \<longleftrightarrow> spec_rr_boundary (3 / 10) (2 / 10) e x y)"
proof -
  have r: "0 < e" "e \<le> 3 / 10" "e \<le> 2 / 10" using assms by simp_all
  note s = sdf_sign[OF r, of x y]
  show ?thesis
    unfolding spec_rr_outside_def spec_rr_boundary_def s[symmetric] by linarith
qed

theorem C7_sdf_sign_witness:
  "(0::real) < 1 / 10 \<and> (1 / 10 :: real) \<le> 2 / 10
   \<and> spec_rr_inside (3 / 10) (2 / 10) (1 / 10) 0 0
   \<and> roundedRectSDF 0 0 (3 / 10) (2 / 10) (1 / 10) < 0
   \<and> spec_rr_boundary (3 / 10) (2 / 10) (1 / 10) (3 / 10) 0
   \<and> roundedRectSDF (3 / 10) 0 (3 / 10) (2 / 10) (1 / 10) = 0
   \<and> spec_rr_outside (3 / 10) (2 / 10) (1 / 10) (1 / 2) 0
   \<and> 0 < roundedRectSDF (1 / 2) 0 (3 / 10) (2 / 10) (1 / 10)"
  using C7_sdf_sign[of "1 / 10" 0 0] C7_sdf_sign[of "1 / 10" "3 / 10" 0]
    C7_sdf_sign[of "1 / 10" "1 / 2" 0]
  by (simp add: spec_rr_inside_def spec_rr_closed_def spec_rr_boundary_def spec_rr_outside_def
      spec_corner_radius_def Let_def)

theorem C7_counterexample:
  "spec_rr_inside (3 / 10) (2 / 10) (6 / 10) (1 / 4) 0
   \<and> 0 < roundedRectSDF (1 / 4) 0 (3 / 10) (2 / 10) (6 / 10)"
  using sdf_default_radius
  by (simp add: spec_rr_inside_def spec_corner_radius_def Let_def)

subsection \<open>Half-turn symmetry (C6)\<close>






























end
